theory Spec2Isabelle
  imports Main "HOL-Library.AList" "HOL-Library.Sublist"
begin

section \<open>Python values used by the program\<close>

text \<open>
  The exceptions the modelled code can raise.  \<open>KeyError\<close> is what a failed \<open>dict\<close>
  subscript raises (the specification calls it NotFoundError); \<open>TypeError\<close> is what
  \<open>build_messages\<close> re-raises when formatting fails with a \<open>TypeError\<close> (the specification
  calls it InvalidTemplateInputError); \<open>IndexError\<close> and \<open>ValueError\<close> are the other
  failures of \<open>str.format\<close>.
\<close>

datatype error = KeyError | TypeError | IndexError | ValueError

text \<open>
  A Python \<open>dict\<close> keeps its keys in insertion order, so it is an association list:
  \<open>d[k]\<close> is \<open>dict_get\<close>, \<open>d[k] = v\<close> is \<open>dict_set\<close> (an existing key keeps its place, a
  new key goes to the end), \<open>k in d\<close> is \<open>dict_contains\<close> and iterating \<open>d\<close> visits
  \<open>dict_keys d\<close>.
\<close>

type_synonym ('k, 'v) dict = "('k \<times> 'v) list"

definition dict_get :: "('k, 'v) dict \<Rightarrow> 'k \<Rightarrow> error + 'v" where
  "dict_get d k = (case map_of d k of None \<Rightarrow> Inl KeyError | Some v \<Rightarrow> Inr v)"

definition dict_set :: "('k, 'v) dict \<Rightarrow> 'k \<Rightarrow> 'v \<Rightarrow> ('k, 'v) dict" where
  "dict_set d k v = AList.update k v d"

definition dict_contains :: "('k, 'v) dict \<Rightarrow> 'k \<Rightarrow> bool" where
  "dict_contains d k = (k \<in> set (map fst d))"

definition dict_keys :: "('k, 'v) dict \<Rightarrow> 'k list" where
  "dict_keys d = map fst d"

section \<open>user_table.py\<close>

text \<open>
  \<open>class User(dict)\<close>: platform names to lists of identifiers.  \<open>get_ids\<close> is
  \<open>self[platform]\<close>.  A record read from the user-table data names each platform once;
  nothing below depends on it.
\<close>

type_synonym user = "(string, string list) dict"

definition get_ids :: "user \<Rightarrow> string \<Rightarrow> error + string list" where
  "get_ids u p = dict_get u p"

type_synonym id_map = "(string, user) dict"
type_synonym platform_map = "(string, id_map) dict"

text \<open>
  \<open>class UserTable(list)\<close>: the list of users together with the attribute \<open>mappings\<close>.
\<close>

record user_table =
  users :: "user list"
  mappings :: platform_map

text \<open>
  \<open>_build_mappings\<close>, innermost loop first.  \<open>id_map\<close> is the object stored in
  \<open>platform_map[platform]\<close>, so the writes \<open>id_map[user_id] = user\<close> are writes into
  \<open>platform_map\<close>: \<open>add_platform\<close> stores the updated \<open>id_map\<close> back.
\<close>

fun add_ids :: "user \<Rightarrow> string list \<Rightarrow> id_map \<Rightarrow> id_map" where
  "add_ids u [] id_map = id_map"
| "add_ids u (user_id # rest) id_map = add_ids u rest (dict_set id_map user_id u)"

definition add_platform :: "user \<Rightarrow> string \<Rightarrow> platform_map \<Rightarrow> error + platform_map" where
  "add_platform u p platform_map =
     (let pm = (if \<not> dict_contains platform_map p then dict_set platform_map p []
                else platform_map)
      in case dict_get pm p of
           Inl e \<Rightarrow> Inl e
         | Inr id_map \<Rightarrow>
             (case get_ids u p of
                Inl e \<Rightarrow> Inl e
              | Inr ids \<Rightarrow> Inr (dict_set pm p (add_ids u ids id_map))))"

fun add_platforms :: "user \<Rightarrow> string list \<Rightarrow> platform_map \<Rightarrow> error + platform_map" where
  "add_platforms u [] platform_map = Inr platform_map"
| "add_platforms u (p # ps) platform_map =
     (case add_platform u p platform_map of
        Inl e \<Rightarrow> Inl e
      | Inr pm \<Rightarrow> add_platforms u ps pm)"

fun add_users :: "user list \<Rightarrow> platform_map \<Rightarrow> error + platform_map" where
  "add_users [] platform_map = Inr platform_map"
| "add_users (u # us) platform_map =
     (case add_platforms u (dict_keys u) platform_map of
        Inl e \<Rightarrow> Inl e
      | Inr pm \<Rightarrow> add_users us pm)"

definition build_mappings :: "user list \<Rightarrow> error + platform_map" where
  "build_mappings data = add_users data []"

text \<open>\<open>UserTable.__init__\<close>.\<close>

definition UserTable :: "user list \<Rightarrow> error + user_table" where
  "UserTable data =
     (case build_mappings data of
        Inl e \<Rightarrow> Inl e
      | Inr m \<Rightarrow> Inr \<lparr>users = data, mappings = m\<rparr>)"

definition get_users :: "user_table \<Rightarrow> string \<Rightarrow> error + id_map" where
  "get_users t p = dict_get (mappings t) p"

definition get_user :: "user_table \<Rightarrow> string \<Rightarrow> string \<Rightarrow> error + user" where
  "get_user t p username =
     (case get_users t p of
        Inl e \<Rightarrow> Inl e
      | Inr id_map \<Rightarrow> dict_get id_map username)"

text \<open>
  \<open>get_unrecognized\<close>: the comprehension evaluates \<open>self.get_users(platform)\<close> once for
  every element, so an unknown platform raises at the first element and not at all on the
  empty list.
\<close>

fun get_unrecognized :: "user_table \<Rightarrow> string \<Rightarrow> string list \<Rightarrow> error + string list" where
  "get_unrecognized t p [] = Inr []"
| "get_unrecognized t p (username # rest) =
     (case get_users t p of
        Inl e \<Rightarrow> Inl e
      | Inr id_map \<Rightarrow>
          (case get_unrecognized t p rest of
             Inl e \<Rightarrow> Inl e
           | Inr out \<Rightarrow>
               Inr (if \<not> dict_contains id_map username then username # out else out)))"

section \<open>platforms.py\<close>

text \<open>
  The adapter classes \<open>slack.Slack\<close> and \<open>email.Email\<close> are the only keys of the registry;
  a platform object is represented by its class.  \<open>platform_class\<close> is the dictionary of
  classes by name and \<open>platform_name\<close> its inverse, built by the comprehension
  \<open>{v: k for k, v in platform_class.items()}\<close>.
\<close>

datatype platform = Slack | Email

definition platform_class :: "(string, platform) dict" where
  "platform_class = [(''slack'', Slack), (''email'', Email)]"

definition platform_name :: "(platform, string) dict" where
  "platform_name = foldl (\<lambda>d (k, v). dict_set d v k) [] platform_class"

section \<open>templated.py\<close>

text \<open>
  What \<open>template_input_builder\<close> may return: \<open>None\<close>, a tuple of strings, a string, or a
  value that cannot be iterated (an integer stands for these).
\<close>

datatype pyval = PyNone | PyTuple "string list" | PyStr string | PyInt int

text \<open>
  The argument unpacking of the call \<open>format(*template_input)\<close>: a tuple gives its
  elements, a string gives its characters as one-character strings, and a value that is
  not iterable raises \<open>TypeError\<close>.
\<close>

fun star_args :: "pyval \<Rightarrow> error + string list" where
  "star_args PyNone = Inl TypeError"
| "star_args (PyTuple xs) = Inr xs"
| "star_args (PyStr s) = Inr (map (\<lambda>c. [c]) s)"
| "star_args (PyInt n) = Inl TypeError"

text \<open>
  \<open>str.format\<close> applied to positional arguments is a parameter \<open>fmt\<close> of the model (the
  formatting engine is the language's, not the program's).  \<open>format_star\<close> is the guarded
  statement of \<open>build_messages\<close>:
  \<^verbatim>\<open>
  try:
      content = message.content.format(*template_input)
  except TypeError as e:
      raise TypeError('Output of template_input_builder must be a tuple.') from e
  \<close>
  A \<open>TypeError\<close> is raised again as a \<open>TypeError\<close>; any other exception passes through.
\<close>

type_synonym formatter = "string \<Rightarrow> string list \<Rightarrow> error + string"

definition format_star :: "formatter \<Rightarrow> string \<Rightarrow> pyval \<Rightarrow> error + string" where
  "format_star fmt template template_input =
     (case star_args template_input of
        Inl e \<Rightarrow> Inl e
      | Inr args \<Rightarrow>
          (case fmt template args of
             Inl e \<Rightarrow> (if e = TypeError then Inl TypeError else Inl e)
           | Inr c \<Rightarrow> Inr c))"

text \<open>
  \<open>str.format\<close> on templates whose replacement fields are all the automatic field
  \<open>{}\<close>, with \<open>{{\<close> and \<open>}}\<close> for literal braces: each field takes the next argument,
  \<open>IndexError\<close> when none is left, surplus arguments are ignored, and a single brace is a
  \<open>ValueError\<close>.  Fields with an index, a name or a format specification are outside this
  fragment.  It instantiates \<open>fmt\<close> on concrete inputs.
\<close>

fun str_format :: "string \<Rightarrow> string list \<Rightarrow> error + string" where
  "str_format [] args = Inr []"
| "str_format (c # cs) args =
     (if c = CHR ''{'' then
        (case cs of
           [] \<Rightarrow> Inl ValueError
         | d # rest \<Rightarrow>
             (if d = CHR ''{'' then
                (case str_format rest args of Inl e \<Rightarrow> Inl e | Inr out \<Rightarrow> Inr (c # out))
              else if d = CHR ''}'' then
                (case args of
                   [] \<Rightarrow> Inl IndexError
                 | a # args' \<Rightarrow>
                     (case str_format rest args' of
                        Inl e \<Rightarrow> Inl e
                      | Inr out \<Rightarrow> Inr (a @ out)))
              else Inl ValueError))
      else if c = CHR ''}'' then
        (case cs of
           [] \<Rightarrow> Inl ValueError
         | d # rest \<Rightarrow>
             (if d = CHR ''}'' then
                (case str_format rest args of Inl e \<Rightarrow> Inl e | Inr out \<Rightarrow> Inr (c # out))
              else Inl ValueError))
      else
        (case str_format cs args of Inl e \<Rightarrow> Inl e | Inr out \<Rightarrow> Inr (c # out)))"

text \<open>
  A recipient is an object of a platform's \<open>User\<close> class; the program only calls its
  \<open>get_id()\<close>.  Further attributes of a subclass are the extension of the record.
\<close>

record platform_user =
  get_id :: string

datatype ('s, 'r) message = Message (sender: 's) (recipient: 'r) (content: string)

text \<open>
  Modelled from the spec: \<open>basic.build_messages\<close>, which is not among the sources.  The
  specification's assembler visits each recipient in input order and builds its message
  from the sender, that recipient and the content template, so the unfilled messages are
  one per recipient, in order, with the template as content.
\<close>

definition basic_build_messages :: "'s \<Rightarrow> 'r list \<Rightarrow> string \<Rightarrow> ('s, 'r) message list" where
  "basic_build_messages sndr recipients template =
     map (\<lambda>r. Message sndr r template) recipients"

text \<open>The text given to \<open>logging.error\<close> when a recipient is skipped.\<close>

definition skip_diagnostic :: "string \<Rightarrow> string" where
  "skip_diagnostic recipient_id =
     ''Skipping user '' @ [CHR 0x27] @ recipient_id @ [CHR 0x27] @
     '' because no user table entry was found''"

text \<open>
  The loop of \<open>build_messages\<close> over the unfilled messages.  Its state is the list of
  lines logged so far and the list \<open>messages\<close>; the result is the log together with either
  the exception that left the loop or the final \<open>messages\<close>.  \<open>except KeyError\<close> catches
  only that exception.
\<close>

fun fill_messages ::
  "formatter \<Rightarrow> string \<Rightarrow> 'd \<Rightarrow> user_table \<Rightarrow> (user \<Rightarrow> 'd \<Rightarrow> pyval) \<Rightarrow>
   ('s, 'a platform_user_scheme) message list \<Rightarrow> string list \<Rightarrow>
   ('s, 'a platform_user_scheme) message list \<Rightarrow>
   string list \<times> (error + ('s, 'a platform_user_scheme) message list)" where
  "fill_messages fmt pname templating_data table template_input_builder [] log messages =
     (log, Inr messages)"
| "fill_messages fmt pname templating_data table template_input_builder (message # rest)
     log messages =
     (let recipient_id = get_id (recipient message) in
      case get_user table pname recipient_id of
        Inl e \<Rightarrow>
          (if e = KeyError then
             fill_messages fmt pname templating_data table template_input_builder rest
               (log @ [skip_diagnostic recipient_id]) messages
           else (log, Inl e))
      | Inr user \<Rightarrow>
          (let template_input = template_input_builder user templating_data in
           if template_input = PyNone then
             fill_messages fmt pname templating_data table template_input_builder rest
               log messages
           else
             (case format_star fmt (content message) template_input of
                Inl e \<Rightarrow> (log, Inl e)
              | Inr c \<Rightarrow>
                  fill_messages fmt pname templating_data table template_input_builder rest
                    log (messages @ [Message (sender message) (recipient message) c]))))"

definition build_messages ::
  "formatter \<Rightarrow> platform \<Rightarrow> 's \<Rightarrow> 'a platform_user_scheme list \<Rightarrow> string \<Rightarrow> 'd \<Rightarrow>
   user_table \<Rightarrow> (user \<Rightarrow> 'd \<Rightarrow> pyval) \<Rightarrow>
   string list \<times> (error + ('s, 'a platform_user_scheme) message list)" where
  "build_messages fmt pform sndr recipients template templating_data table
     template_input_builder =
     (case dict_get platform_name pform of
        Inl e \<Rightarrow> ([], Inl e)
      | Inr pname \<Rightarrow>
          fill_messages fmt pname templating_data table template_input_builder
            (basic_build_messages sndr recipients template) [] [])"

text \<open>
  \<open>build_resources\<close>.  \<open>resolve_recipients\<close> is its \<open>if recipients_data == []\<close> statement;
  \<open>basic.build_resources\<close>, which constructs the platform's objects, is the parameter
  \<open>basic_build_resources\<close>.  The returned dictionary is the triple of the basic
  resources, the templating data and the user table.
\<close>

definition resolve_recipients :: "user_table \<Rightarrow> string \<Rightarrow> string list \<Rightarrow> error + string list" where
  "resolve_recipients table pname recipients_data =
     (if recipients_data = [] then
        (case get_users table pname of
           Inl e \<Rightarrow> Inl e
         | Inr id_map \<Rightarrow> Inr (dict_keys id_map))
      else Inr recipients_data)"

definition build_resources ::
  "(string \<Rightarrow> 'sd \<Rightarrow> string list \<Rightarrow> string \<Rightarrow> error + 'b) \<Rightarrow>
   string \<Rightarrow> 'sd \<Rightarrow> string list \<Rightarrow> string \<Rightarrow> 'd \<Rightarrow> user list \<Rightarrow>
   error + ('b \<times> 'd \<times> user_table)" where
  "build_resources basic_build_resources pname sender_data recipients_data template
     templating_data user_table_data =
     (case UserTable user_table_data of
        Inl e \<Rightarrow> Inl e
      | Inr table \<Rightarrow>
          (case resolve_recipients table pname recipients_data of
             Inl e \<Rightarrow> Inl e
           | Inr recipients_data' \<Rightarrow>
               (case basic_build_resources pname sender_data recipients_data' template of
                  Inl e \<Rightarrow> Inl e
                | Inr basic \<Rightarrow> Inr (basic, templating_data, table))))"

text \<open>
  \<open>_send_to_all\<close> and \<open>send_to_all\<close>.  \<open>basic.send_message\<close> is the parameter
  \<open>send_message\<close>, which returns the exception it raises, if any.  The result is the log,
  the messages handed to \<open>send_message\<close> without failure, and the exception that ended
  the run, if any.
\<close>

fun send_each :: "('m \<Rightarrow> error option) \<Rightarrow> 'm list \<Rightarrow> 'm list \<times> error option" where
  "send_each send_message [] = ([], None)"
| "send_each send_message (m # ms) =
     (case send_message m of
        Some e \<Rightarrow> ([], Some e)
      | None \<Rightarrow> (case send_each send_message ms of (sent, r) \<Rightarrow> (m # sent, r)))"

definition send_to_all_internal ::
  "formatter \<Rightarrow> (('s, 'a platform_user_scheme) message \<Rightarrow> error option) \<Rightarrow>
   platform \<Rightarrow> 's \<Rightarrow> 'a platform_user_scheme list \<Rightarrow> string \<Rightarrow> 'd \<Rightarrow>
   user_table \<Rightarrow> (user \<Rightarrow> 'd \<Rightarrow> pyval) \<Rightarrow>
   string list \<times> ('s, 'a platform_user_scheme) message list \<times> error option" where
  "send_to_all_internal fmt send_message pform sndr recipients template templating_data
     table template_input_builder =
     (case build_messages fmt pform sndr recipients template templating_data table
             template_input_builder of
        (log, Inl e) \<Rightarrow> (log, [], Some e)
      | (log, Inr messages) \<Rightarrow>
          (case send_each send_message messages of (sent, r) \<Rightarrow> (log, sent, r)))"

definition send_to_all ::
  "(string \<Rightarrow> 'sd \<Rightarrow> string list \<Rightarrow> string \<Rightarrow>
      error + (platform \<times> 's \<times> 'a platform_user_scheme list \<times> string)) \<Rightarrow>
   formatter \<Rightarrow> (('s, 'a platform_user_scheme) message \<Rightarrow> error option) \<Rightarrow>
   string \<Rightarrow> 'sd \<Rightarrow> string list \<Rightarrow> string \<Rightarrow> 'd \<Rightarrow> user list \<Rightarrow>
   (user \<Rightarrow> 'd \<Rightarrow> pyval) \<Rightarrow>
   string list \<times> ('s, 'a platform_user_scheme) message list \<times> error option" where
  "send_to_all basic_build_resources fmt send_message pname sender_data recipients_data
     template templating_data user_table_data template_input_builder =
     (case build_resources basic_build_resources pname sender_data recipients_data
             template templating_data user_table_data of
        Inl e \<Rightarrow> ([], [], Some e)
      | Inr ((pform, sndr, recipients, template'), templating_data', table) \<Rightarrow>
          send_to_all_internal fmt send_message pform sndr recipients template'
            templating_data' table template_input_builder)"

section \<open>Notions used to state the properties\<close>

text \<open>The record \<open>u\<close> lists the identifier \<open>x\<close> for the platform \<open>p\<close>.\<close>

definition lists_id :: "user \<Rightarrow> string \<Rightarrow> string \<Rightarrow> bool" where
  "lists_id u p x = (case get_ids u p of Inl e \<Rightarrow> False | Inr ids \<Rightarrow> x \<in> set ids)"

text \<open>The two-level lookup in the index, as a partial function.\<close>

definition lookup2 :: "platform_map \<Rightarrow> string \<Rightarrow> string \<Rightarrow> user option" where
  "lookup2 pm p x = (case map_of pm p of None \<Rightarrow> None | Some im \<Rightarrow> map_of im x)"

text \<open>The last record of a sequence that lists \<open>x\<close> for \<open>p\<close>.\<close>

fun last_lister :: "user list \<Rightarrow> string \<Rightarrow> string \<Rightarrow> user option" where
  "last_lister [] p x = None"
| "last_lister (u # us) p x =
     (case last_lister us p x of
        Some v \<Rightarrow> Some v
      | None \<Rightarrow> (if lists_id u p x then Some u else None))"

text \<open>
  A recipient is resolvable when the table has its identifier for the platform; it is
  answered when, moreover, the builder returns something other than \<open>None\<close> for its
  record.
\<close>

definition resolvable :: "user_table \<Rightarrow> string \<Rightarrow> 'a platform_user_scheme \<Rightarrow> bool" where
  "resolvable table pname r =
     (case get_user table pname (get_id r) of Inl e \<Rightarrow> False | Inr u \<Rightarrow> True)"

definition answered ::
  "user_table \<Rightarrow> string \<Rightarrow> (user \<Rightarrow> 'd \<Rightarrow> pyval) \<Rightarrow> 'd \<Rightarrow> 'a platform_user_scheme \<Rightarrow> bool" where
  "answered table pname template_input_builder templating_data r =
     (case get_user table pname (get_id r) of
        Inl e \<Rightarrow> False
      | Inr u \<Rightarrow> template_input_builder u templating_data \<noteq> PyNone)"

text \<open>
  The builder returned \<open>None\<close> for the recipient's record (the recipient is resolvable
  and skipped without a diagnostic).
\<close>

definition declined ::
  "user_table \<Rightarrow> string \<Rightarrow> (user \<Rightarrow> 'd \<Rightarrow> pyval) \<Rightarrow> 'd \<Rightarrow> 'a platform_user_scheme \<Rightarrow> bool" where
  "declined table pname template_input_builder templating_data r =
     (case get_user table pname (get_id r) of
        Inl e \<Rightarrow> False
      | Inr u \<Rightarrow> template_input_builder u templating_data = PyNone)"

text \<open>Every identifier map of the index has each key once.\<close>

definition distinct_ids :: "platform_map \<Rightarrow> bool" where
  "distinct_ids pm = (\<forall>p im. map_of pm p = Some im \<longrightarrow> distinct (map fst im))"

section \<open>Concrete tables\<close>

definition alice_rec :: user where "alice_rec = [(''slack'', [''alice''])]"
definition bob_rec :: user where
  "bob_rec = [(''slack'', [''bob'']), (''email'', [''bob@x.com''])]"
definition example_data :: "user list" where "example_data = [alice_rec, bob_rec]"
definition example_table :: user_table where
  "example_table =
     \<lparr>users = example_data,
      mappings = [(''slack'', [(''alice'', alice_rec), (''bob'', bob_rec)]),
                  (''email'', [(''bob@x.com'', bob_rec)])]\<rparr>"

definition dup_first :: user where
  "dup_first = [(''slack'', [''x'']), (''email'', [''a@x.com''])]"
definition dup_second :: user where
  "dup_second = [(''slack'', [''x'']), (''email'', [''b@x.com''])]"
definition dup_data :: "user list" where "dup_data = [dup_first, dup_second]"
definition dup_table :: user_table where
  "dup_table =
     \<lparr>users = dup_data,
      mappings = [(''slack'', [(''x'', dup_second)]),
                  (''email'', [(''a@x.com'', dup_first), (''b@x.com'', dup_second)])]\<rparr>"

text \<open>Recipients of the specification's scenario.\<close>

definition alice :: platform_user where "alice = \<lparr>get_id = ''alice''\<rparr>"
definition carol :: platform_user where "carol = \<lparr>get_id = ''carol''\<rparr>"
definition bob :: platform_user where "bob = \<lparr>get_id = ''bob''\<rparr>"

text \<open>
  The builder of the specification's scenario: a tuple for alice's record, \<open>None\<close> for
  any other.
\<close>

definition scenario_builder :: "user \<Rightarrow> unit \<Rightarrow> pyval" where
  "scenario_builder u d = (if u = alice_rec then PyTuple [''Alice''] else PyNone)"

section \<open>The index built by the constructor\<close>

lemma map_of_dict_set: "map_of (dict_set d k v) = (map_of d)(k \<mapsto> v)"
  by (simp add: dict_set_def update_conv')

lemma map_of_add_ids:
  "map_of (add_ids u ids im) x = (if x \<in> set ids then Some u else map_of im x)"
  by (induction ids arbitrary: im) (auto simp: map_of_dict_set)

lemma keys_add_ids: "set (map fst (add_ids u ids im)) = set (map fst im) \<union> set ids"
proof -
  have "set (map fst d) = {x. map_of d x \<noteq> None}" for d :: id_map
    by (auto simp: map_of_eq_None_iff)
  then show ?thesis by (auto simp: map_of_add_ids)
qed

lemma distinct_add_ids: "distinct (map fst im) \<Longrightarrow> distinct (map fst (add_ids u ids im))"
  by (induction ids arbitrary: im) (auto simp: dict_set_def distinct_update)

lemma get_ids_Inr: "p \<in> set (dict_keys u) \<Longrightarrow> \<exists>ids. get_ids u p = Inr ids"
  unfolding get_ids_def dict_get_def dict_keys_def
  by (cases "map_of u p") (auto simp: map_of_eq_None_iff)

lemma add_platform_Inr:
  assumes "get_ids u p = Inr ids"
  shows "\<exists>pm'. add_platform u p pm = Inr pm' \<and>
           map_of pm' = (map_of pm)(p \<mapsto> add_ids u ids (case map_of pm p of None \<Rightarrow> [] | Some im \<Rightarrow> im))"
proof (cases "map_of pm p")
  case None
  then have "\<not> dict_contains pm p"
    by (simp add: dict_contains_def map_of_eq_None_iff)
  with None assms show ?thesis
    by (simp add: add_platform_def dict_get_def map_of_dict_set)
next
  case (Some im)
  then have "dict_contains pm p"
    unfolding dict_contains_def using map_of_eq_None_iff [of pm p] by simp
  with Some assms show ?thesis
    by (simp add: add_platform_def dict_get_def map_of_dict_set)
qed

lemma lookup2_add_platform:
  assumes "get_ids u p = Inr ids"
  shows "\<exists>pm'. add_platform u p pm = Inr pm' \<and>
           (\<forall>q x. lookup2 pm' q x = (if q = p \<and> x \<in> set ids then Some u else lookup2 pm q x)) \<and>
           dom (map_of pm') = insert p (dom (map_of pm))"
proof -
  from add_platform_Inr [OF assms, of pm] obtain pm' where
    a: "add_platform u p pm = Inr pm'" and
    m: "map_of pm' = (map_of pm)(p \<mapsto> add_ids u ids (case map_of pm p of None \<Rightarrow> [] | Some im \<Rightarrow> im))"
    by blast
  have "lookup2 pm' q x = (if q = p \<and> x \<in> set ids then Some u else lookup2 pm q x)" for q x
    unfolding lookup2_def m by (cases "map_of pm p") (simp_all add: map_of_add_ids)
  moreover have "dom (map_of pm') = insert p (dom (map_of pm))"
    unfolding m by simp
  ultimately show ?thesis using a by blast
qed

lemma lookup2_add_platforms:
  assumes "set ps \<subseteq> set (dict_keys u)"
  shows "\<exists>pm'. add_platforms u ps pm = Inr pm' \<and>
           (\<forall>q x. lookup2 pm' q x = (if q \<in> set ps \<and> lists_id u q x then Some u else lookup2 pm q x)) \<and>
           dom (map_of pm') = set ps \<union> dom (map_of pm)"
  using assms
proof (induction ps arbitrary: pm)
  case Nil
  then show ?case by simp
next
  case (Cons p ps)
  then have "p \<in> set (dict_keys u)" by simp
  then obtain ids where ids: "get_ids u p = Inr ids"
    using get_ids_Inr by blast
  from lookup2_add_platform [OF ids, of pm] obtain pm1 where
    a: "add_platform u p pm = Inr pm1" and
    l: "\<And>q x. lookup2 pm1 q x = (if q = p \<and> x \<in> set ids then Some u else lookup2 pm q x)" and
    d: "dom (map_of pm1) = insert p (dom (map_of pm))"
    by blast
  from Cons.IH [of pm1] Cons.prems obtain pm' where
    b: "add_platforms u ps pm1 = Inr pm'" and
    l': "\<And>q x. lookup2 pm' q x = (if q \<in> set ps \<and> lists_id u q x then Some u else lookup2 pm1 q x)" and
    d': "dom (map_of pm') = set ps \<union> dom (map_of pm1)"
    by auto
  have "add_platforms u (p # ps) pm = Inr pm'"
    using a b by simp
  moreover have "lookup2 pm' q x = (if q \<in> set (p # ps) \<and> lists_id u q x then Some u else lookup2 pm q x)" for q x
    unfolding l' l using ids by (auto simp: lists_id_def)
  moreover have "dom (map_of pm') = set (p # ps) \<union> dom (map_of pm)"
    unfolding d' d by auto
  ultimately show ?case by blast
qed

lemma lists_id_key: "lists_id u p x \<Longrightarrow> p \<in> set (dict_keys u)"
  unfolding lists_id_def get_ids_def dict_get_def dict_keys_def
  by (cases "map_of u p") (auto dest: map_of_SomeD intro: rev_image_eqI)

lemma lookup2_add_users:
  "\<exists>pm'. add_users us pm = Inr pm' \<and>
      (\<forall>q x. lookup2 pm' q x = (case last_lister us q x of Some v \<Rightarrow> Some v | None \<Rightarrow> lookup2 pm q x)) \<and>
      dom (map_of pm') = (\<Union>u \<in> set us. set (dict_keys u)) \<union> dom (map_of pm)"
proof (induction us arbitrary: pm)
  case Nil
  then show ?case by simp
next
  case (Cons u us)
  from lookup2_add_platforms [of "dict_keys u" u pm] obtain pm1 where
    a: "add_platforms u (dict_keys u) pm = Inr pm1" and
    l: "\<And>q x. lookup2 pm1 q x = (if q \<in> set (dict_keys u) \<and> lists_id u q x then Some u else lookup2 pm q x)" and
    d: "dom (map_of pm1) = set (dict_keys u) \<union> dom (map_of pm)"
    by auto
  from Cons.IH [of pm1] obtain pm' where
    b: "add_users us pm1 = Inr pm'" and
    l': "\<And>q x. lookup2 pm' q x = (case last_lister us q x of Some v \<Rightarrow> Some v | None \<Rightarrow> lookup2 pm1 q x)" and
    d': "dom (map_of pm') = (\<Union>u \<in> set us. set (dict_keys u)) \<union> dom (map_of pm1)"
    by auto
  have "add_users (u # us) pm = Inr pm'"
    using a b by simp
  moreover have "lookup2 pm' q x = (case last_lister (u # us) q x of Some v \<Rightarrow> Some v | None \<Rightarrow> lookup2 pm q x)" for q x
    unfolding l' l using lists_id_key [of u q x] by (auto split: option.splits)
  moreover have "dom (map_of pm') = (\<Union>u \<in> set (u # us). set (dict_keys u)) \<union> dom (map_of pm)"
    unfolding d' d by auto
  ultimately show ?case by blast
qed


lemma last_lister_SomeD: "last_lister us p x = Some v \<Longrightarrow> v \<in> set us \<and> lists_id v p x"
  by (induction us) (auto split: option.splits if_splits)

lemma last_lister_None_iff: "last_lister us p x = None \<longleftrightarrow> (\<forall>u \<in> set us. \<not> lists_id u p x)"
  by (induction us) (auto split: option.splits)

lemma last_lister_append:
  "last_lister (xs @ ys) p x =
     (case last_lister ys p x of Some v \<Rightarrow> Some v | None \<Rightarrow> last_lister xs p x)"
  by (induction xs) (auto split: option.splits)

lemma last_lister_decomp:
  assumes "lists_id u p x" "\<forall>v \<in> set cs. \<not> lists_id v p x"
  shows "last_lister (as @ u # cs) p x = Some u"
proof -
  have "last_lister cs p x = None"
    using assms(2) by (simp add: last_lister_None_iff)
  then have "last_lister (u # cs) p x = Some u"
    using assms(1) by simp
  then show ?thesis by (simp add: last_lister_append)
qed

lemma UserTable_Inr:
  "\<exists>t. UserTable data = Inr t \<and> users t = data \<and>
       (\<forall>p x. lookup2 (mappings t) p x = last_lister data p x) \<and>
       dom (map_of (mappings t)) = (\<Union>u \<in> set data. set (dict_keys u))"
proof -
  from lookup2_add_users [of data "[]"] obtain pm where pm:
    "add_users data [] = Inr pm \<and>
     (\<forall>q x. lookup2 pm q x = (case last_lister data q x of Some v \<Rightarrow> Some v | None \<Rightarrow> lookup2 [] q x)) \<and>
     dom (map_of pm) = (\<Union>u \<in> set data. set (dict_keys u)) \<union> dom (map_of ([]::platform_map))" ..
  have e: "lookup2 [] q x = None" for q x
    by (simp add: lookup2_def)
  have l: "lookup2 pm q x = last_lister data q x" for q x
    using pm by (cases "last_lister data q x") (simp_all add: e)
  have d: "dom (map_of pm) = (\<Union>u \<in> set data. set (dict_keys u))"
    using pm by simp
  have t: "UserTable data = Inr \<lparr>users = data, mappings = pm\<rparr>"
    using pm by (simp add: UserTable_def build_mappings_def)
  show ?thesis
    unfolding t using l d by simp
qed

lemma get_user_lookup2:
  "get_user t p x = (case lookup2 (mappings t) p x of None \<Rightarrow> Inl KeyError | Some u \<Rightarrow> Inr u)"
  by (simp add: get_user_def get_users_def dict_get_def lookup2_def split: option.splits)

lemma get_user_error: "get_user t p x = Inl e \<Longrightarrow> e = KeyError"
  by (auto simp: get_user_lookup2 split: option.splits)

lemma get_users_unknown:
  "map_of (mappings t) p = None \<Longrightarrow> get_users t p = Inl KeyError"
  by (simp add: get_users_def dict_get_def)

text \<open>Evaluation of the model on concrete inputs.\<close>

lemmas dict_defs = dict_get_def dict_set_def dict_contains_def dict_keys_def
lemmas table_defs = UserTable_def build_mappings_def add_platform_def get_ids_def
  get_users_def get_user_def lists_id_def
lemmas example_defs = alice_rec_def bob_rec_def example_data_def example_table_def
  dup_first_def dup_second_def dup_data_def dup_table_def

text \<open>
  Claim C6.  For a table built from any sequence of records and any identifier \<open>x\<close> that
  some record \<open>u\<close> of the sequence lists for a platform \<open>p\<close>, construction succeeds and
  \<open>get_user\<close> returns a record \<open>R\<close> of the sequence whose own identifier list for \<open>p\<close>
  contains \<open>x\<close>.
\<close>
theorem get_user_index_correct:
  assumes "u \<in> set data" and "get_ids u p = Inr ids" and "x \<in> set ids"
  shows "\<exists>t R rids. UserTable data = Inr t \<and> get_user t p x = Inr R \<and>
           R \<in> set data \<and> get_ids R p = Inr rids \<and> x \<in> set rids"
proof -
  from UserTable_Inr [of data] obtain t where
    t: "UserTable data = Inr t" and
    l: "\<And>q y. lookup2 (mappings t) q y = last_lister data q y"
    by blast
  have "lists_id u p x"
    using assms(2,3) by (simp add: lists_id_def)
  with assms(1) have "last_lister data p x \<noteq> None"
    by (auto simp: last_lister_None_iff)
  then obtain R where R: "last_lister data p x = Some R"
    by blast
  have Rin: "R \<in> set data" and Rl: "lists_id R p x"
    using last_lister_SomeD [OF R] by simp_all
  from Rl obtain rids where rids: "get_ids R p = Inr rids" "x \<in> set rids"
    by (cases "get_ids R p") (simp_all add: lists_id_def)
  have g: "get_user t p x = Inr R"
    by (simp add: get_user_lookup2 l R)
  show ?thesis
    using t g Rin rids by (intro exI [of _ t] exI [of _ R] exI [of _ rids]) simp
qed

theorem get_user_index_correct_witness:
  "bob_rec \<in> set example_data \<and> get_ids bob_rec ''email'' = Inr [''bob@x.com''] \<and>
   get_user example_table ''email'' ''bob@x.com'' = Inr bob_rec"
  using get_user_index_correct [of bob_rec example_data "''email''" "[''bob@x.com'']" "''bob@x.com''"]
  by (simp add: example_defs table_defs dict_defs)

text \<open>
  Claim C2.  When two records \<open>u1\<close> (earlier) and \<open>u2\<close> (later) of the input both list \<open>x\<close>
  for \<open>p\<close>, construction raises nothing and \<open>get_user\<close> returns a record that is \<open>u2\<close> or
  comes after it and lists \<open>x\<close> for \<open>p\<close>: the later write replaces the earlier one.  The
  record returned is \<open>u2\<close> itself when no record after \<open>u2\<close> lists the identifier again.
\<close>
theorem get_user_last_write_wins:
  assumes "data = as @ u1 # bs @ u2 # cs"
    and "lists_id u1 p x" and "lists_id u2 p x"
  shows "\<exists>t R. UserTable data = Inr t \<and> get_user t p x = Inr R \<and>
           R \<in> set (u2 # cs) \<and> lists_id R p x \<and>
           ((\<forall>v \<in> set cs. \<not> lists_id v p x) \<longrightarrow> R = u2)"
proof -
  from UserTable_Inr [of data] obtain t where
    t: "UserTable data = Inr t" and
    l: "\<And>q y. lookup2 (mappings t) q y = last_lister data q y"
    by blast
  have d: "data = (as @ u1 # bs) @ (u2 # cs)"
    using assms(1) by simp
  have "last_lister (u2 # cs) p x \<noteq> None"
    using assms(3) by (simp split: option.splits)
  then obtain R where R: "last_lister (u2 # cs) p x = Some R"
    by blast
  then have RR: "last_lister data p x = Some R"
    using last_lister_append [of "as @ u1 # bs" "u2 # cs" p x]
    unfolding d by (simp del: last_lister.simps append_assoc append.simps)
  have Rin: "R \<in> set (u2 # cs)" and Rl: "lists_id R p x"
    using last_lister_SomeD [OF R] by simp_all
  have g: "get_user t p x = Inr R"
    by (simp add: get_user_lookup2 l RR)
  have u: "R = u2" if "\<forall>v \<in> set cs. \<not> lists_id v p x"
    using last_lister_decomp [OF assms(3) that, of "[]"] R by simp
  show ?thesis
    using t g Rin Rl u by (intro exI [of _ t] exI [of _ R]) simp
qed

theorem get_user_last_write_wins_witness:
  "lists_id dup_first ''slack'' ''x'' \<and> lists_id dup_second ''slack'' ''x'' \<and>
   UserTable dup_data = Inr dup_table \<and> get_user dup_table ''slack'' ''x'' = Inr dup_second"
  using get_user_last_write_wins [of dup_data "[]" dup_first "[]" dup_second "[]" "''slack''" "''x''"]
  by (simp add: example_defs table_defs dict_defs)

section \<open>Properties of the user table\<close>

lemma get_unrecognized_filter:
  assumes "get_users t p = Inr id_map"
  shows "get_unrecognized t p ids = Inr (filter (\<lambda>x. x \<notin> set (dict_keys id_map)) ids)"
  using assms by (induction ids) (simp_all add: dict_contains_def dict_keys_def)

text \<open>
  Claim C7.  When the table knows the platform \<open>p\<close>, \<open>get_unrecognized\<close> returns the
  elements of \<open>ids\<close> that are not keys of \<open>get_users p\<close>, in input order: the result is a
  subsequence of \<open>ids\<close> and shares no element with the key set.  The function returns the
  list only; the table it was given is not changed.
\<close>
theorem get_unrecognized_correct:
  assumes "get_users t p = Inr id_map"
  shows "\<exists>out. get_unrecognized t p ids = Inr out \<and>
           out = filter (\<lambda>x. x \<notin> set (dict_keys id_map)) ids \<and>
           subseq out ids \<and> set out \<inter> set (dict_keys id_map) = {}"
  using get_unrecognized_filter [OF assms, of ids] by auto

theorem get_unrecognized_correct_witness:
  "get_users example_table ''slack'' =
     Inr [(''alice'', alice_rec), (''bob'', bob_rec)] \<and>
   get_unrecognized example_table ''slack'' [''carol'', ''alice'', ''dave''] =
     Inr [''carol'', ''dave'']"
  using get_unrecognized_correct [of example_table "''slack''"
     "[(''alice'', alice_rec), (''bob'', bob_rec)]" "[''carol'', ''alice'', ''dave'']"]
  by (simp add: example_defs table_defs dict_defs)

lemma get_unrecognized_unknown:
  "get_users t p = Inl e \<Longrightarrow> ids \<noteq> [] \<Longrightarrow> get_unrecognized t p ids = Inl e"
  by (cases ids) simp_all

lemma UserTable_unknown_platform:
  assumes "\<forall>u \<in> set data. p \<notin> set (dict_keys u)"
  shows "\<exists>t. UserTable data = Inr t \<and> get_users t p = Inl KeyError"
proof -
  from UserTable_Inr [of data] obtain t where
    t: "UserTable data = Inr t" and
    d: "dom (map_of (mappings t)) = (\<Union>u \<in> set data. set (dict_keys u))"
    by blast
  have "p \<notin> dom (map_of (mappings t))"
    unfolding d using assms by simp
  then have "map_of (mappings t) p = None"
    by (simp add: domIff)
  then show ?thesis
    using t get_users_unknown by blast
qed

text \<open>
  Claim C8.  For a table built from records none of which names the platform \<open>p\<close>,
  \<open>get_users p\<close> raises \<open>KeyError\<close>; \<open>get_unrecognized\<close> returns the empty list on the empty
  list and raises \<open>KeyError\<close> on every non-empty list.
\<close>
theorem get_unrecognized_unknown_platform:
  assumes "\<forall>u \<in> set data. p \<notin> set (dict_keys u)"
  shows "\<exists>t. UserTable data = Inr t \<and> get_users t p = Inl KeyError \<and>
           get_unrecognized t p [] = Inr [] \<and>
           (\<forall>ids. ids \<noteq> [] \<longrightarrow> get_unrecognized t p ids = Inl KeyError)"
proof -
  from UserTable_unknown_platform [OF assms] obtain t where
    t: "UserTable data = Inr t" and g: "get_users t p = Inl KeyError"
    by blast
  have "get_unrecognized t p ids = Inl KeyError" if "ids \<noteq> []" for ids
    using get_unrecognized_unknown [OF g that] .
  then show ?thesis
    using t g by (intro exI [of _ t]) simp
qed

theorem get_unrecognized_unknown_platform_witness:
  "UserTable example_data = Inr example_table \<and>
   get_unrecognized example_table ''irc'' [] = Inr [] \<and>
   get_unrecognized example_table ''irc'' [''alice''] = Inl KeyError"
  using get_unrecognized_unknown_platform [of example_data "''irc''"]
  by (simp add: example_defs table_defs dict_defs)

text \<open>
  Claim C10 as stated fails when a later record lists the same identifier: the pair
  \<open>(slack, x)\<close> is present in the first record, the record returned is the second, and its
  list for \<open>email\<close> is not the first record's.
\<close>
theorem get_user_projection_counterexample:
  "dup_first \<in> set dup_data \<and> lists_id dup_first ''slack'' ''x'' \<and>
   UserTable dup_data = Inr dup_table \<and>
   get_user dup_table ''slack'' ''x'' = Inr dup_second \<and>
   get_ids dup_first ''email'' = Inr [''a@x.com''] \<and>
   get_ids dup_second ''email'' = Inr [''b@x.com''] \<and>
   get_ids dup_second ''email'' \<noteq> get_ids dup_first ''email''"
  by (simp add: example_defs table_defs dict_defs)

text \<open>
  Claim C10, amended.  When \<open>u\<close> is the last record of the input that lists \<open>x\<close> for \<open>p\<close>,
  \<open>get_user\<close> returns a record whose identifier list for every platform \<open>q\<close> is that of
  \<open>u\<close>: the index holds the whole record, not its projection to the queried platform.
\<close>
theorem get_user_complete_record:
  assumes "data = as @ u # cs"
    and "lists_id u p x" and "\<forall>v \<in> set cs. \<not> lists_id v p x"
  shows "\<exists>t R. UserTable data = Inr t \<and> get_user t p x = Inr R \<and>
           (\<forall>q. get_ids R q = get_ids u q)"
proof -
  from UserTable_Inr [of data] obtain t where
    t: "UserTable data = Inr t" and
    l: "\<And>q y. lookup2 (mappings t) q y = last_lister data q y"
    by blast
  have "last_lister data p x = Some u"
    unfolding assms(1) using last_lister_decomp [OF assms(2,3)] .
  then have "get_user t p x = Inr u"
    by (simp add: get_user_lookup2 l)
  then show ?thesis
    using t by (intro exI [of _ t] exI [of _ u]) simp
qed

theorem get_user_complete_record_witness:
  "lists_id bob_rec ''slack'' ''bob'' \<and>
   UserTable example_data = Inr example_table \<and>
   get_user example_table ''slack'' ''bob'' = Inr bob_rec \<and>
   get_ids bob_rec ''email'' = Inr [''bob@x.com'']"
  using get_user_complete_record [of example_data "[alice_rec]" bob_rec "[]" "''slack''" "''bob''"]
  by (simp add: example_defs table_defs dict_defs)

section \<open>Recipient resolution\<close>

lemma add_platform_distinct:
  assumes "distinct_ids pm" and "add_platform u p pm = Inr pm'"
  shows "distinct_ids pm'"
proof (cases "get_ids u p")
  case (Inl e)
  then have "add_platform u p pm = Inl e \<or> (\<exists>e'. add_platform u p pm = Inl e')"
    by (simp add: add_platform_def Let_def split: sum.splits)
  with assms(2) show ?thesis by auto
next
  case (Inr ids)
  from add_platform_Inr [OF Inr, of pm] assms(2) have
    m: "map_of pm' = (map_of pm)(p \<mapsto> add_ids u ids (case map_of pm p of None \<Rightarrow> [] | Some im \<Rightarrow> im))"
    by auto
  have "distinct (map fst (case map_of pm p of None \<Rightarrow> [] | Some im \<Rightarrow> im))"
    using assms(1) by (auto simp: distinct_ids_def split: option.splits)
  then have "distinct (map fst (add_ids u ids (case map_of pm p of None \<Rightarrow> [] | Some im \<Rightarrow> im)))"
    by (rule distinct_add_ids)
  then show ?thesis
    using assms(1) unfolding distinct_ids_def m by auto
qed

lemma add_platforms_distinct:
  "distinct_ids pm \<Longrightarrow> add_platforms u ps pm = Inr pm' \<Longrightarrow> distinct_ids pm'"
proof (induction ps arbitrary: pm)
  case Nil
  then show ?case by simp
next
  case (Cons p ps)
  then show ?case
    by (cases "add_platform u p pm") (auto dest: add_platform_distinct)
qed

lemma add_users_distinct:
  "distinct_ids pm \<Longrightarrow> add_users us pm = Inr pm' \<Longrightarrow> distinct_ids pm'"
proof (induction us arbitrary: pm)
  case Nil
  then show ?case by simp
next
  case (Cons u us)
  then show ?case
    by (cases "add_platforms u (dict_keys u) pm") (auto dest: add_platforms_distinct)
qed

lemma UserTable_distinct:
  assumes "UserTable data = Inr t"
  shows "distinct_ids (mappings t)"
proof -
  have "distinct_ids []"
    by (simp add: distinct_ids_def)
  moreover from assms obtain pm where "add_users data [] = Inr pm" and "mappings t = pm"
    by (auto simp: UserTable_def build_mappings_def split: sum.splits)
  ultimately show ?thesis
    using add_users_distinct by blast
qed

lemma get_users_keys:
  assumes "UserTable data = Inr t" and "get_users t p = Inr m"
  shows "set (dict_keys m) = {x. \<exists>u \<in> set data. lists_id u p x}"
    and "distinct (dict_keys m)"
proof -
  from UserTable_Inr [of data] assms(1) have
    l: "\<And>q y. lookup2 (mappings t) q y = last_lister data q y"
    by auto
  from assms(2) have m: "map_of (mappings t) p = Some m"
    by (simp add: get_users_def dict_get_def split: option.splits)
  have "map_of m x = last_lister data p x" for x
    using l [of p x] m by (simp add: lookup2_def)
  moreover have "set (map fst m) = {x. map_of m x \<noteq> None}"
    by (auto simp: map_of_eq_None_iff)
  ultimately show "set (dict_keys m) = {x. \<exists>u \<in> set data. lists_id u p x}"
    by (auto simp: dict_keys_def last_lister_None_iff)
  show "distinct (dict_keys m)"
    using UserTable_distinct [OF assms(1)] m by (simp add: distinct_ids_def dict_keys_def)
qed

lemma UserTable_known_platform:
  assumes "UserTable data = Inr t" and "u \<in> set data" and "p \<in> set (dict_keys u)"
  shows "\<exists>m. get_users t p = Inr m"
proof -
  from UserTable_Inr [of data] assms(1) have
    d: "dom (map_of (mappings t)) = (\<Union>u \<in> set data. set (dict_keys u))"
    by auto
  have "p \<in> dom (map_of (mappings t))"
    unfolding d using assms(2,3) by blast
  then obtain m where "map_of (mappings t) p = Some m"
    by (auto simp: domIff)
  then show ?thesis
    by (simp add: get_users_def dict_get_def)
qed

text \<open>
  Claim C4 as stated fails when no record names the platform: no identifier is known for
  \<open>irc\<close>, yet on the empty recipient list the run does not resolve to these (none) but
  raises the \<open>KeyError\<close> of \<open>get_users\<close>.
\<close>
theorem build_resources_empty_counterexample:
  "UserTable example_data = Inr example_table \<and>
   {x. \<exists>u \<in> set example_data. lists_id u ''irc'' x} = {} \<and>
   get_users example_table ''irc'' = Inl KeyError \<and>
   resolve_recipients example_table ''irc'' [] = Inl KeyError \<and>
   build_resources (\<lambda>p s r c. Inr r) ''irc'' () [] ''Hi {}'' () example_data =
     Inl KeyError"
  by (simp add: example_defs table_defs dict_defs resolve_recipients_def build_resources_def)

text \<open>
  Claim C4, amended.  In \<open>build_resources\<close> the table is always built.  When
  \<open>recipients_data\<close> is the empty list and some record of the user-table data names the
  platform, \<open>get_users\<close> succeeds and the recipients handed on to \<open>basic.build_resources\<close>
  are its keys, each once; these are exactly the identifiers that some record lists for
  the platform.  A non-empty \<open>recipients_data\<close> is handed on as it is, whatever the
  platform.
\<close>
theorem build_resources_recipients:
  "\<exists>t. UserTable utd = Inr t \<and>
     ((\<exists>u \<in> set utd. pn \<in> set (dict_keys u)) \<longrightarrow>
        (\<exists>m. get_users t pn = Inr m \<and>
           resolve_recipients t pn [] = Inr (dict_keys m) \<and>
           set (dict_keys m) = {x. \<exists>u \<in> set utd. lists_id u pn x} \<and>
           distinct (dict_keys m) \<and>
           build_resources bbr pn sd [] c td utd =
             (case bbr pn sd (dict_keys m) c of Inl e \<Rightarrow> Inl e | Inr b \<Rightarrow> Inr (b, td, t)))) \<and>
     (rd \<noteq> [] \<longrightarrow>
        resolve_recipients t pn rd = Inr rd \<and>
        build_resources bbr pn sd rd c td utd =
          (case bbr pn sd rd c of Inl e \<Rightarrow> Inl e | Inr b \<Rightarrow> Inr (b, td, t)))"
proof -
  from UserTable_Inr [of utd] obtain t where t: "UserTable utd = Inr t"
    by blast
  have a: "resolve_recipients t pn [] = Inr (dict_keys m)" if "get_users t pn = Inr m" for m
    using that by (simp add: resolve_recipients_def)
  have b: "build_resources bbr pn sd [] c td utd =
          (case bbr pn sd (dict_keys m) c of Inl e \<Rightarrow> Inl e | Inr b \<Rightarrow> Inr (b, td, t))"
    if "get_users t pn = Inr m" for m
    using a [OF that] t by (simp add: build_resources_def)
  have known: "\<exists>m. get_users t pn = Inr m \<and>
           resolve_recipients t pn [] = Inr (dict_keys m) \<and>
           set (dict_keys m) = {x. \<exists>u \<in> set utd. lists_id u pn x} \<and>
           distinct (dict_keys m) \<and>
           build_resources bbr pn sd [] c td utd =
             (case bbr pn sd (dict_keys m) c of Inl e \<Rightarrow> Inl e | Inr b \<Rightarrow> Inr (b, td, t))"
    if "\<exists>u \<in> set utd. pn \<in> set (dict_keys u)"
  proof -
    from that obtain u where "u \<in> set utd" and "pn \<in> set (dict_keys u)"
      by blast
    from UserTable_known_platform [OF t this] obtain m where m: "get_users t pn = Inr m"
      by blast
    show ?thesis
      using m a [OF m] b [OF m] get_users_keys [OF t m] by (intro exI [of _ m] conjI)
  qed
  have c: "resolve_recipients t pn rd = Inr rd" if "rd \<noteq> []"
    using that by (simp add: resolve_recipients_def)
  have d: "build_resources bbr pn sd rd c td utd =
          (case bbr pn sd rd c of Inl e \<Rightarrow> Inl e | Inr b \<Rightarrow> Inr (b, td, t))" if "rd \<noteq> []"
    using c [OF that] t by (simp add: build_resources_def)
  show ?thesis
    using t known c d by (intro exI [of _ t]) blast
qed

theorem build_resources_recipients_witness:
  "alice_rec \<in> set example_data \<and> ''slack'' \<in> set (dict_keys alice_rec) \<and>
   UserTable example_data = Inr example_table \<and>
   resolve_recipients example_table ''slack'' [] = Inr [''alice'', ''bob''] \<and>
   build_resources (\<lambda>p s r c. Inr r) ''slack'' () [] ''Hi {}'' () example_data =
     Inr ([''alice'', ''bob''], (), example_table) \<and>
   build_resources (\<lambda>p s r c. Inr r) ''slack'' () [''carol''] ''Hi {}'' () example_data =
     Inr ([''carol''], (), example_table)"
  using build_resources_recipients [of example_data "''slack''" "\<lambda>p s r c. Inr r" "()"
    "''Hi {}''" "()" "[''carol'']"]
  by (simp add: example_defs table_defs dict_defs resolve_recipients_def build_resources_def)

text \<open>
  Claim C9.  When \<open>recipients_data\<close> is the empty list and no record of the user-table
  data names the platform, \<open>build_resources\<close> raises the \<open>KeyError\<close> of \<open>get_users\<close>,
  whatever \<open>basic.build_resources\<close> is, and \<open>send_to_all\<close> ends with that error having
  logged nothing and sent nothing.
\<close>
theorem build_resources_unknown_platform:
  assumes "\<forall>u \<in> set utd. pn \<notin> set (dict_keys u)"
  shows "\<exists>t. UserTable utd = Inr t \<and> get_users t pn = Inl KeyError \<and>
           resolve_recipients t pn [] = Inl KeyError \<and>
           build_resources bbr pn sd [] c td utd = Inl KeyError \<and>
           send_to_all bbr' fmt send pn sd [] c td utd tib = ([], [], Some KeyError)"
proof -
  from UserTable_unknown_platform [OF assms] obtain t where
    t: "UserTable utd = Inr t" and g: "get_users t pn = Inl KeyError"
    by blast
  have r: "resolve_recipients t pn [] = Inl KeyError"
    using g by (simp add: resolve_recipients_def)
  have b: "build_resources bbr pn sd [] c td utd = Inl KeyError"
    using t r by (simp add: build_resources_def)
  have s: "send_to_all bbr' fmt send pn sd [] c td utd tib = ([], [], Some KeyError)"
    using t r by (simp add: send_to_all_def build_resources_def)
  show ?thesis
    using t g r b s by (intro exI [of _ t]) simp
qed

theorem build_resources_unknown_platform_witness:
  "UserTable example_data = Inr example_table \<and>
   build_resources (\<lambda>p s r c. Inr r) ''irc'' () [] ''Hi {}'' () example_data = Inl KeyError"
  using build_resources_unknown_platform [of example_data "''irc''" "\<lambda>p s r c. Inr r" "()"
    "''Hi {}''" "()"]
  by (simp add: example_defs table_defs dict_defs resolve_recipients_def build_resources_def)

section \<open>The loop of build_messages\<close>

lemma platform_name_total: "\<exists>pn. dict_get platform_name pf = Inr pn"
  by (cases pf) (simp_all add: platform_name_def platform_class_def dict_get_def dict_set_def)

lemma fill_skip:
  assumes "get_user t pn (get_id (recipient m)) = Inl e"
  shows "fill_messages fmt pn td t tib (m # ms) log acc =
           fill_messages fmt pn td t tib ms (log @ [skip_diagnostic (get_id (recipient m))]) acc"
  using assms get_user_error [OF assms] by simp

lemma fill_none:
  assumes "get_user t pn (get_id (recipient m)) = Inr u" and "tib u td = PyNone"
  shows "fill_messages fmt pn td t tib (m # ms) log acc = fill_messages fmt pn td t tib ms log acc"
  using assms by simp

lemma fill_fail:
  assumes "get_user t pn (get_id (recipient m)) = Inr u" and "tib u td \<noteq> PyNone"
    and "format_star fmt (content m) (tib u td) = Inl e"
  shows "fill_messages fmt pn td t tib (m # ms) log acc = (log, Inl e)"
  using assms by simp

lemma fill_ok:
  assumes "get_user t pn (get_id (recipient m)) = Inr u" and "tib u td \<noteq> PyNone"
    and "format_star fmt (content m) (tib u td) = Inr c"
  shows "fill_messages fmt pn td t tib (m # ms) log acc =
           fill_messages fmt pn td t tib ms log (acc @ [Message (sender m) (recipient m) c])"
  using assms by simp

text \<open>What the loop has done when it returns.\<close>

lemma fill_messages_returns:
  assumes "fill_messages fmt pn td t tib ms log acc = (log', Inr out)"
  shows "\<exists>new. out = acc @ new \<and>
           map recipient new = filter (answered t pn tib td) (map recipient ms) \<and>
           log' = log @ map (\<lambda>m. skip_diagnostic (get_id (recipient m)))
                          (filter (\<lambda>m. \<not> resolvable t pn (recipient m)) ms)"
  using assms
proof (induction ms arbitrary: log acc)
  case Nil
  then show ?case by simp
next
  case (Cons m ms)
  show ?case
  proof (cases "get_user t pn (get_id (recipient m))")
    case (Inl e)
    have na: "\<not> answered t pn tib td (recipient m)" and nr: "\<not> resolvable t pn (recipient m)"
      using Inl by (simp_all add: answered_def resolvable_def)
    from Cons.prems have "fill_messages fmt pn td t tib ms (log @ [skip_diagnostic (get_id (recipient m))]) acc = (log', Inr out)"
      by (simp only: fill_skip [OF Inl])
    from Cons.IH [OF this] obtain new where new:
      "out = acc @ new \<and>
       map recipient new = filter (answered t pn tib td) (map recipient ms) \<and>
       log' = (log @ [skip_diagnostic (get_id (recipient m))]) @ map (\<lambda>m. skip_diagnostic (get_id (recipient m)))
                          (filter (\<lambda>m. \<not> resolvable t pn (recipient m)) ms)" ..
    show ?thesis
      using new na nr by (intro exI [of _ new]) simp
  next
    case (Inr u)
    have r: "resolvable t pn (recipient m)"
      using Inr by (simp add: resolvable_def)
    show ?thesis
    proof (cases "tib u td = PyNone")
      case True
      have na: "\<not> answered t pn tib td (recipient m)"
        using Inr True by (simp add: answered_def)
      from Cons.prems have "fill_messages fmt pn td t tib ms log acc = (log', Inr out)"
        by (simp only: fill_none [where tib = tib and td = td, OF Inr True])
      from Cons.IH [OF this] obtain new where new:
        "out = acc @ new \<and>
         map recipient new = filter (answered t pn tib td) (map recipient ms) \<and>
         log' = log @ map (\<lambda>m. skip_diagnostic (get_id (recipient m)))
                          (filter (\<lambda>m. \<not> resolvable t pn (recipient m)) ms)" ..
      show ?thesis
        using new na r by (intro exI [of _ new]) simp
    next
      case False
      have a: "answered t pn tib td (recipient m)"
        using Inr False by (simp add: answered_def)
      show ?thesis
      proof (cases "format_star fmt (content m) (tib u td)")
        case (Inl e)
        from Cons.prems show ?thesis
          by (simp only: fill_fail [where tib = tib and td = td, OF Inr False Inl]) simp
      next
        case c: (Inr c)
        let ?m = "Message (sender m) (recipient m) c"
        from Cons.prems have "fill_messages fmt pn td t tib ms log (acc @ [?m]) = (log', Inr out)"
          by (simp only: fill_ok [where tib = tib and td = td, OF Inr False c])
        from Cons.IH [OF this] obtain new where new:
          "out = (acc @ [?m]) @ new \<and>
           map recipient new = filter (answered t pn tib td) (map recipient ms) \<and>
           log' = log @ map (\<lambda>m. skip_diagnostic (get_id (recipient m)))
                          (filter (\<lambda>m. \<not> resolvable t pn (recipient m)) ms)" ..
        show ?thesis
          using new a r by (intro exI [of _ "?m # new"]) simp
      qed
    qed
  qed
qed

text \<open>A property of the messages appended by the loop holds of all it returns.\<close>

lemma fill_messages_invariant:
  assumes "fill_messages fmt pn td t tib ms log acc = (log', Inr out)"
    and "\<forall>m \<in> set acc. Q m"
    and "\<And>m u c. m \<in> set ms \<Longrightarrow> get_user t pn (get_id (recipient m)) = Inr u \<Longrightarrow>
           tib u td \<noteq> PyNone \<Longrightarrow> format_star fmt (content m) (tib u td) = Inr c \<Longrightarrow>
           Q (Message (sender m) (recipient m) c)"
  shows "\<forall>m \<in> set out. Q m"
  using assms
proof (induction ms arbitrary: log acc)
  case Nil
  then show ?case by simp
next
  case (Cons m ms)
  have step: "\<And>m' u c. m' \<in> set ms \<Longrightarrow> get_user t pn (get_id (recipient m')) = Inr u \<Longrightarrow>
           tib u td \<noteq> PyNone \<Longrightarrow> format_star fmt (content m') (tib u td) = Inr c \<Longrightarrow>
           Q (Message (sender m') (recipient m') c)"
    using Cons.prems(3) by simp
  show ?case
  proof (cases "get_user t pn (get_id (recipient m))")
    case (Inl e)
    from Cons.prems(1) have "fill_messages fmt pn td t tib ms (log @ [skip_diagnostic (get_id (recipient m))]) acc = (log', Inr out)"
      by (simp only: fill_skip [OF Inl])
    from Cons.IH [OF this Cons.prems(2) step] show ?thesis by simp
  next
    case (Inr u)
    show ?thesis
    proof (cases "tib u td = PyNone")
      case True
      from Cons.prems(1) have "fill_messages fmt pn td t tib ms log acc = (log', Inr out)"
        by (simp only: fill_none [where tib = tib and td = td, OF Inr True])
      from Cons.IH [OF this Cons.prems(2) step] show ?thesis by simp
    next
      case False
      show ?thesis
      proof (cases "format_star fmt (content m) (tib u td)")
        case (Inl e)
        from Cons.prems(1) show ?thesis
          by (simp only: fill_fail [where tib = tib and td = td, OF Inr False Inl]) simp
      next
        case c: (Inr c)
        let ?m = "Message (sender m) (recipient m) c"
        from Cons.prems(1) have f: "fill_messages fmt pn td t tib ms log (acc @ [?m]) = (log', Inr out)"
          by (simp only: fill_ok [where tib = tib and td = td, OF Inr False c])
        have "Q ?m"
          using Cons.prems(3) [of m u c] Inr False c by simp
        then have "\<forall>m \<in> set (acc @ [?m]). Q m"
          using Cons.prems(2) by simp
        from Cons.IH [OF f this step] show ?thesis by simp
      qed
    qed
  qed
qed

text \<open>The loop returns when every answered recipient's input formats.\<close>

lemma fill_messages_total:
  assumes "\<forall>m \<in> set ms. \<forall>u. get_user t pn (get_id (recipient m)) = Inr u \<longrightarrow>
             tib u td \<noteq> PyNone \<longrightarrow> (\<exists>c. format_star fmt (content m) (tib u td) = Inr c)"
  shows "\<exists>log' out. fill_messages fmt pn td t tib ms log acc = (log', Inr out)"
  using assms
proof (induction ms arbitrary: log acc)
  case Nil
  then show ?case by simp
next
  case (Cons m ms)
  then have rest: "\<forall>m \<in> set ms. \<forall>u. get_user t pn (get_id (recipient m)) = Inr u \<longrightarrow>
             tib u td \<noteq> PyNone \<longrightarrow> (\<exists>c. format_star fmt (content m) (tib u td) = Inr c)"
    by simp
  show ?case
  proof (cases "get_user t pn (get_id (recipient m))")
    case (Inl e)
    show ?thesis
      unfolding fill_skip [OF Inl] using Cons.IH [OF rest] .
  next
    case (Inr u)
    show ?thesis
    proof (cases "tib u td = PyNone")
      case True
      show ?thesis
        unfolding fill_none [where tib = tib and td = td, OF Inr True] using Cons.IH [OF rest] .
    next
      case False
      with Cons.prems Inr obtain c where c: "format_star fmt (content m) (tib u td) = Inr c"
        by auto
      show ?thesis
        unfolding fill_ok [where tib = tib and td = td, OF Inr False c] using Cons.IH [OF rest] .
    qed
  qed
qed

text \<open>The loop stops with the error of the first answered recipient whose input fails.\<close>

lemma fill_messages_fails:
  assumes "ms = pre @ m # post"
    and "\<forall>m' \<in> set pre. \<forall>u. get_user t pn (get_id (recipient m')) = Inr u \<longrightarrow>
             tib u td \<noteq> PyNone \<longrightarrow> (\<exists>c. format_star fmt (content m') (tib u td) = Inr c)"
    and "get_user t pn (get_id (recipient m)) = Inr u" and "tib u td \<noteq> PyNone"
    and "format_star fmt (content m) (tib u td) = Inl e"
  shows "\<exists>log'. fill_messages fmt pn td t tib ms log acc = (log', Inl e)"
  using assms(1,2)
proof (induction pre arbitrary: ms log acc)
  case Nil
  then show ?case
    using fill_fail [where tib = tib and td = td, OF assms(3,4,5)] by simp
next
  case (Cons m' pre)
  then have rest: "\<forall>m' \<in> set pre. \<forall>u. get_user t pn (get_id (recipient m')) = Inr u \<longrightarrow>
             tib u td \<noteq> PyNone \<longrightarrow> (\<exists>c. format_star fmt (content m') (tib u td) = Inr c)"
    by simp
  have ms: "ms = m' # (pre @ m # post)"
    using Cons.prems(1) by simp
  show ?case
  proof (cases "get_user t pn (get_id (recipient m'))")
    case (Inl e')
    show ?thesis
      unfolding ms fill_skip [OF Inl] using Cons.IH [OF refl rest] .
  next
    case (Inr u')
    show ?thesis
    proof (cases "tib u' td = PyNone")
      case True
      show ?thesis
        unfolding ms fill_none [where tib = tib and td = td, OF Inr True] using Cons.IH [OF refl rest] .
    next
      case False
      with Cons.prems(2) Inr obtain c where c: "format_star fmt (content m') (tib u' td) = Inr c"
        by auto
      show ?thesis
        unfolding ms fill_ok [where tib = tib and td = td, OF Inr False c] using Cons.IH [OF refl rest] .
    qed
  qed
qed

section \<open>Properties of build_messages\<close>

lemmas message_defs = build_messages_def platform_name_def platform_class_def
  basic_build_messages_def format_star_def skip_diagnostic_def resolvable_def answered_def
  declined_def alice_def bob_def carol_def scenario_builder_def

lemma recipient_basic_build_messages:
  "map recipient (basic_build_messages sndr recipients tmpl) = recipients"
  by (simp add: basic_build_messages_def comp_def)

lemma filter_basic_build_messages:
  "map recipient (filter (\<lambda>m. P (recipient m)) (basic_build_messages sndr recipients tmpl)) =
     filter P recipients"
  by (induction recipients) (simp_all add: basic_build_messages_def)

lemma log_basic_build_messages:
  "map (\<lambda>m. skip_diagnostic (get_id (recipient m)))
     (filter (\<lambda>m. P (recipient m)) (basic_build_messages sndr recipients tmpl)) =
   map (\<lambda>r. skip_diagnostic (get_id r)) (filter P recipients)"
  by (induction recipients) (simp_all add: basic_build_messages_def)

lemma three_classes:
  "length (filter (answered t pn tib td) rs) + length (filter (\<lambda>r. \<not> resolvable t pn r) rs) +
     length (filter (declined t pn tib td) rs) = length rs"
  by (induction rs) (auto simp: answered_def resolvable_def declined_def split: sum.splits)

lemma answered_resolvable: "answered t pn tib td r \<Longrightarrow> resolvable t pn r"
  by (simp add: answered_def resolvable_def split: sum.splits)

lemma build_messages_returns:
  assumes "dict_get platform_name pf = Inr pn"
    and "build_messages fmt pf sndr recipients tmpl td t tib = (log, Inr msgs)"
  shows "map recipient msgs = filter (answered t pn tib td) recipients"
    and "log = map (\<lambda>r. skip_diagnostic (get_id r)) (filter (\<lambda>r. \<not> resolvable t pn r) recipients)"
proof -
  let ?ms = "basic_build_messages sndr recipients tmpl"
  from assms have f: "fill_messages fmt pn td t tib ?ms [] [] = (log, Inr msgs)"
    by (simp add: build_messages_def)
  from fill_messages_returns [OF f] have
    r: "map recipient msgs = filter (answered t pn tib td) (map recipient ?ms)" and
    l: "log = map (\<lambda>m. skip_diagnostic (get_id (recipient m)))
                 (filter (\<lambda>m. \<not> resolvable t pn (recipient m)) ?ms)"
    by auto
  show "map recipient msgs = filter (answered t pn tib td) recipients"
    using r by (simp only: recipient_basic_build_messages)
  show "log = map (\<lambda>r. skip_diagnostic (get_id r)) (filter (\<lambda>r. \<not> resolvable t pn r) recipients)"
    unfolding l by (rule log_basic_build_messages)
qed

lemma build_messages_made:
  assumes "dict_get platform_name pf = Inr pn"
    and "build_messages fmt pf sndr recipients tmpl td t tib = (log, Inr msgs)"
  shows "\<forall>m \<in> set msgs. sender m = sndr \<and>
           (\<exists>u. get_user t pn (get_id (recipient m)) = Inr u \<and>
                format_star fmt tmpl (tib u td) = Inr (content m))"
proof -
  let ?ms = "basic_build_messages sndr recipients tmpl"
  from assms have f: "fill_messages fmt pn td t tib ?ms [] [] = (log, Inr msgs)"
    by (simp add: build_messages_def)
  show ?thesis
  proof (rule fill_messages_invariant [OF f])
    show "\<forall>m \<in> set []. sender m = sndr \<and>
           (\<exists>u. get_user t pn (get_id (recipient m)) = Inr u \<and>
                format_star fmt tmpl (tib u td) = Inr (content m))"
      by simp
  next
    fix m u c
    assume "m \<in> set ?ms" and "get_user t pn (get_id (recipient m)) = Inr u"
      and "tib u td \<noteq> PyNone" and "format_star fmt (content m) (tib u td) = Inr c"
    moreover from \<open>m \<in> set ?ms\<close> have "sender m = sndr" and "content m = tmpl"
      by (auto simp: basic_build_messages_def)
    ultimately show "sender (Message (sender m) (recipient m) c) = sndr \<and>
           (\<exists>u. get_user t pn (get_id (recipient (Message (sender m) (recipient m) c))) = Inr u \<and>
                format_star fmt tmpl (tib u td) = Inr (content (Message (sender m) (recipient m) c)))"
      by simp
  qed
qed

text \<open>
  Claim C3.  Suppose that for every recipient whose identifier the table has and for
  which the builder does not return \<open>None\<close>, the builder returns a tuple that the template
  formats.  Then \<open>build_messages\<close> returns a list; a recipient whose identifier is absent
  from the table for the platform is the recipient of no message; each such recipient
  contributes one line to the log, in order, and nothing else is logged; and the number of
  messages is the number of recipients minus the unresolvable ones minus those for which
  the builder returned \<open>None\<close>.
\<close>
theorem build_messages_skips:
  assumes "dict_get platform_name pf = Inr pn"
    and "\<forall>r \<in> set recipients. \<forall>u. get_user t pn (get_id r) = Inr u \<longrightarrow>
           tib u td \<noteq> PyNone \<longrightarrow> (\<exists>xs c. tib u td = PyTuple xs \<and> fmt tmpl xs = Inr c)"
  shows "\<exists>log msgs. build_messages fmt pf sndr recipients tmpl td t tib = (log, Inr msgs) \<and>
           map recipient msgs = filter (answered t pn tib td) recipients \<and>
           (\<forall>r \<in> set recipients. \<not> resolvable t pn r \<longrightarrow> r \<notin> set (map recipient msgs)) \<and>
           log = map (\<lambda>r. skip_diagnostic (get_id r))
                   (filter (\<lambda>r. \<not> resolvable t pn r) recipients) \<and>
           length msgs + length (filter (\<lambda>r. \<not> resolvable t pn r) recipients) +
             length (filter (declined t pn tib td) recipients) = length recipients \<and>
           length msgs = length recipients - length (filter (\<lambda>r. \<not> resolvable t pn r) recipients) -
             length (filter (declined t pn tib td) recipients)"
proof -
  let ?ms = "basic_build_messages sndr recipients tmpl"
  have "\<forall>m \<in> set ?ms. \<forall>u. get_user t pn (get_id (recipient m)) = Inr u \<longrightarrow>
             tib u td \<noteq> PyNone \<longrightarrow> (\<exists>c. format_star fmt (content m) (tib u td) = Inr c)"
  proof (intro ballI allI impI)
    fix m u
    assume m: "m \<in> set ?ms" and u: "get_user t pn (get_id (recipient m)) = Inr u"
      and n: "tib u td \<noteq> PyNone"
    from m have "recipient m \<in> set recipients" and c: "content m = tmpl"
      by (auto simp: basic_build_messages_def)
    with assms(2) u n obtain xs c' where "tib u td = PyTuple xs" and "fmt tmpl xs = Inr c'"
      by blast
    then have "format_star fmt (content m) (tib u td) = Inr c'"
      by (simp add: format_star_def c)
    then show "\<exists>c. format_star fmt (content m) (tib u td) = Inr c" ..
  qed
  from fill_messages_total [where tib = tib and td = td and fmt = fmt and log = "[]" and acc = "[]", OF this] obtain log msgs where
    "fill_messages fmt pn td t tib ?ms [] [] = (log, Inr msgs)"
    by blast
  then have b: "build_messages fmt pf sndr recipients tmpl td t tib = (log, Inr msgs)"
    using assms(1) by (simp add: build_messages_def)
  note r = build_messages_returns [OF assms(1) b]
  have len: "length msgs = length (filter (answered t pn tib td) recipients)"
    using r(1) by (metis length_map)
  have sum: "length msgs + length (filter (\<lambda>r. \<not> resolvable t pn r) recipients) +
             length (filter (declined t pn tib td) recipients) = length recipients"
    unfolding len by (rule three_classes)
  have no: "\<forall>r \<in> set recipients. \<not> resolvable t pn r \<longrightarrow> r \<notin> set (map recipient msgs)"
  proof (intro ballI impI)
    fix r
    assume "r \<in> set recipients" and n: "\<not> resolvable t pn r"
    have "\<not> answered t pn tib td r"
      using n answered_resolvable [of t pn tib td r] by blast
    then show "r \<notin> set (map recipient msgs)"
      unfolding r(1) by simp
  qed
  have diff: "length msgs = length recipients - length (filter (\<lambda>r. \<not> resolvable t pn r) recipients) -
             length (filter (declined t pn tib td) recipients)"
    using sum by arith
  show ?thesis
    using b r no sum diff by (intro exI [of _ log] exI [of _ msgs] conjI)
qed

theorem build_messages_skips_witness:
  "dict_get platform_name Slack = Inr ''slack'' \<and>
   build_messages str_format Slack ''me'' [alice, carol, bob] ''Hi {}'' () example_table
     scenario_builder =
     ([skip_diagnostic ''carol''], Inr [Message ''me'' alice ''Hi Alice'']) \<and>
   filter (\<lambda>r. \<not> resolvable example_table ''slack'' r) [alice, carol, bob] = [carol] \<and>
   filter (declined example_table ''slack'' scenario_builder ()) [alice, carol, bob] = [bob]"
  using build_messages_skips [of Slack "''slack''" "[alice, carol, bob]" example_table
    scenario_builder "()" str_format "''Hi {}''" "''me''"]
  by (simp add: message_defs example_defs table_defs dict_defs)

text \<open>
  Claim C5 as stated fails for a resolvable recipient for which the builder returns
  \<open>None\<close>: alice is in the table for slack and no message is produced for her.
\<close>
theorem build_messages_one_per_resolvable_counterexample:
  "resolvable example_table ''slack'' alice \<and>
   build_messages str_format Slack ''me'' [alice] ''Hi {}'' () example_table
     (\<lambda>u d. PyNone) = ([], Inr [])"
  by (simp add: message_defs example_defs table_defs dict_defs)

text \<open>
  Claim C5, amended.  Whenever \<open>build_messages\<close> returns a list, it is at most as long as
  the recipient list; the recipients of the messages are, in input order, exactly the
  recipients that are resolvable and for which the builder did not return \<open>None\<close>, one
  message for each; every message carries the sender and the template formatted with the
  builder's result for the recipient's record.
\<close>
theorem build_messages_order:
  assumes "dict_get platform_name pf = Inr pn"
    and "build_messages fmt pf sndr recipients tmpl td t tib = (log, Inr msgs)"
  shows "length msgs \<le> length recipients \<and>
         map recipient msgs = filter (answered t pn tib td) recipients \<and>
         subseq (map recipient msgs) recipients \<and>
         (\<forall>m \<in> set msgs. sender m = sndr \<and>
            (\<exists>u. get_user t pn (get_id (recipient m)) = Inr u \<and>
                 format_star fmt tmpl (tib u td) = Inr (content m)))"
proof -
  note r = build_messages_returns [OF assms]
  have "length msgs = length (filter (answered t pn tib td) recipients)"
    using r(1) by (metis length_map)
  then have "length msgs \<le> length recipients"
    by simp
  moreover have "subseq (map recipient msgs) recipients"
    unfolding r(1) by simp
  ultimately show ?thesis
    using r(1) build_messages_made [OF assms] by (intro conjI)
qed

theorem build_messages_order_witness:
  "dict_get platform_name Slack = Inr ''slack'' \<and>
   build_messages str_format Slack ''me'' [alice, carol] ''Hi {}'' () example_table
     scenario_builder =
     ([skip_diagnostic ''carol''], Inr [Message ''me'' alice ''Hi Alice'']) \<and>
   filter (answered example_table ''slack'' scenario_builder ()) [alice, carol] = [alice]"
  using build_messages_order [of Slack "''slack''" str_format "''me''" "[alice, carol]"
    "''Hi {}''" "()" example_table scenario_builder "[skip_diagnostic ''carol'']"
    "[Message ''me'' alice ''Hi Alice'']"]
  by (simp add: message_defs example_defs table_defs dict_defs)

text \<open>
  The batch is abandoned at the first answered recipient whose input does not format: the
  error is returned in place of the messages built so far.
\<close>

lemma build_messages_aborts:
  assumes "dict_get platform_name pf = Inr pn"
    and "recipients = pre @ r # post"
    and "\<forall>r' \<in> set pre. \<forall>u. get_user t pn (get_id r') = Inr u \<longrightarrow>
           tib u td \<noteq> PyNone \<longrightarrow> (\<exists>c. format_star fmt tmpl (tib u td) = Inr c)"
    and "get_user t pn (get_id r) = Inr u" and "tib u td \<noteq> PyNone"
    and "format_star fmt tmpl (tib u td) = Inl e"
  shows "\<exists>log. build_messages fmt pf sndr recipients tmpl td t tib = (log, Inl e)"
proof -
  let ?mk = "\<lambda>r. Message sndr r tmpl"
  have ms: "basic_build_messages sndr recipients tmpl = map ?mk pre @ ?mk r # map ?mk post"
    by (simp add: basic_build_messages_def assms(2))
  have pre: "\<forall>m' \<in> set (map ?mk pre). \<forall>u. get_user t pn (get_id (recipient m')) = Inr u \<longrightarrow>
             tib u td \<noteq> PyNone \<longrightarrow> (\<exists>c. format_star fmt (content m') (tib u td) = Inr c)"
    using assms(3) by simp
  have "\<exists>log'. fill_messages fmt pn td t tib (basic_build_messages sndr recipients tmpl) [] [] =
          (log', Inl e)"
    by (rule fill_messages_fails [where tib = tib and td = td and u = u, OF ms pre])
       (simp_all add: assms(4,5,6))
  then show ?thesis
    using assms(1) by (simp add: build_messages_def)
qed

lemma format_star_not_iterable: "format_star fmt tmpl (PyInt n) = Inl TypeError"
  by (simp add: format_star_def)

text \<open>
  Claim C1 at the input of the specification's scenario.  The builder returns the string
  \<open>Alice\<close> for a template with two placeholders: the call does not raise, the string is
  unpacked into its characters and the message \<open>Hi A l\<close> is produced.  A value that cannot
  be iterated does raise \<open>TypeError\<close>, with no message returned.
\<close>
theorem build_messages_string_input:
  "build_messages str_format Slack ''me'' [alice] ''Hi {} {}'' () example_table
     (\<lambda>u d. PyStr ''Alice'') = ([], Inr [Message ''me'' alice ''Hi A l'']) \<and>
   build_messages str_format Slack ''me'' [alice] ''Hi {} {}'' () example_table
     (\<lambda>u d. PyInt 5) = ([], Inl TypeError)"
  by (simp add: message_defs example_defs table_defs dict_defs)

end
